theory Spec2Isabelle
  imports Complex_Main "HOL-Library.Multiset" "HOL-Library.Log_Nat"
begin

section \<open>The firm catalog\<close>

text \<open>
  A finite JavaScript \<open>number\<close> is modelled as the \<^typ>\<open>real\<close> it denotes, the two
  zeros as \<open>0\<close>: the fees and sizes of a catalog are such numbers, and \<open>===\<close> on them
  is equality. The differences of fees that the page forms are used for their sign,
  which rounding keeps, or are handed to a number format. \<open>null\<close>, \<open>undefined\<close> and
  an omitted optional field are all \<open>None\<close>.
\<close>

text \<open>
  Modelled from the spec: the types of an account tier and of a firm are declared in
  \<open>lib/propfirms\<close>, which is not among the sources of \<open>page.tsx\<close>. The fields are those
  of section 3 of the specification, which are also the ones \<open>page.tsx\<close> reads. The fields
  of a tier carry the prefix \<open>acc_\<close>, since a row has fields of the same names.
\<close>

record AccountTier =
  acc_size :: real
  acc_fee :: real
  acc_payoutSplit :: string
  acc_maxDrawdown :: string
  acc_profitTarget :: string
  acc_evaluationPhases :: nat
  acc_minTradingDays :: nat

record PropFirm =
  name :: string
  tagline :: string
  website :: string
  founded :: nat
  headquartered :: string
  strengths :: "string list"
  cautions :: "string list"
  accounts :: "AccountTier list"

section \<open>Division and multiplication in binary64\<close>

text \<open>
  The fee per 10k is the result of a division and a multiplication of the engine. Both
  are operations of IEEE 754 binary64: the exact result is rounded to the nearest
  number of 53 significant bits, ties to the even one, with exponents from \<open>-1022\<close> (below
  it the spacing stays that of the subnormal numbers) up to \<open>1023\<close> (above it the result
  is an infinity); a division by zero gives an infinity or \<open>NaN\<close>. A result is a
  \<open>js_number\<close>.
\<close>

datatype js_number = Finite real | PosInfinity | NegInfinity | NaN

text \<open>
  \<open>pow2 k\<close> is the power of two with the exponent \<open>k\<close>. The exponent of a positive number
  \<open>a\<close> is the \<open>e\<close> with \<open>pow2 e \<le> a < pow2 (e + 1)\<close>, read off the length in bits of the
  integer part of \<open>a\<close> or of \<open>1 / a\<close>.
\<close>

definition pow2 :: "int \<Rightarrow> real" where
  "pow2 k = (if 0 \<le> k then 2 ^ nat k else 1 / 2 ^ nat (- k))"

definition exponent2 :: "real \<Rightarrow> int" where
  "exponent2 a = (if 1 \<le> a then bitlen \<lfloor>a\<rfloor> - 1 else - bitlen (\<lceil>1 / a\<rceil> - 1))"

definition roundHalfEven :: "real \<Rightarrow> int" where
  "roundHalfEven t =
     (let f = \<lfloor>t\<rfloor>; d = t - of_int f in
      if d < 1 / 2 then f
      else if 1 / 2 < d then f + 1
      else if even f then f else f + 1)"

definition round64 :: "real \<Rightarrow> js_number" where
  "round64 x =
     (if x = 0 then Finite 0
      else
        let a = \<bar>x\<bar>;
            e = max (exponent2 a) (- 1022);
            q = pow2 (e - 52);
            r = of_int (roundHalfEven (a / q)) * q
        in if pow2 1024 \<le> r then (if 0 < x then PosInfinity else NegInfinity)
           else Finite (if 0 < x then r else - r))"

text \<open>\<open>a / b\<close> on two finite numbers; a divisor of zero is the positive zero.\<close>

definition js_divide :: "real \<Rightarrow> real \<Rightarrow> js_number" where
  "js_divide a b =
     (if b = 0 then (if a = 0 then NaN else if 0 < a then PosInfinity else NegInfinity)
      else round64 (a / b))"

text \<open>\<open>x * b\<close> for a finite \<open>b\<close>.\<close>

definition js_times :: "js_number \<Rightarrow> real \<Rightarrow> js_number" where
  "js_times x b =
     (case x of
        Finite a \<Rightarrow> round64 (a * b)
      | PosInfinity \<Rightarrow> (if b = 0 then NaN else if 0 < b then PosInfinity else NegInfinity)
      | NegInfinity \<Rightarrow> (if b = 0 then NaN else if 0 < b then NegInfinity else PosInfinity)
      | NaN \<Rightarrow> NaN)"

section \<open>Display rows\<close>

text \<open>The type \<open>FirmRow\<close> of \<open>page.tsx\<close>.\<close>

record FirmRow =
  firm :: PropFirm
  accountSize :: real
  fee :: "real option"
  feePer10k :: "js_number option"
  payoutSplit :: "string option"
  drawdown :: "string option"
  profitTarget :: "string option"
  evaluationPhases :: "nat option"
  minTradingDays :: "nat option"

text \<open>
  The callback that \<open>toFirmRows\<close> maps over the catalog. \<open>Array.prototype.find\<close> returns
  the first tier whose size is the selected one, or \<open>undefined\<close>.
\<close>

definition toFirmRow :: "real \<Rightarrow> PropFirm \<Rightarrow> FirmRow" where
  "toFirmRow sz f =
     (case find (\<lambda>item. acc_size item = sz) (accounts f) of
        None \<Rightarrow>
          \<lparr>firm = f, accountSize = sz, fee = None, feePer10k = None,
           payoutSplit = None, drawdown = None, profitTarget = None,
           evaluationPhases = None, minTradingDays = None\<rparr>
      | Some account \<Rightarrow>
          (let per10k = js_times (js_divide (acc_fee account) (acc_size account)) 10000 in
           \<lparr>firm = f, accountSize = sz, fee = Some (acc_fee account),
            feePer10k = Some per10k,
            payoutSplit = Some (acc_payoutSplit account),
            drawdown = Some (acc_maxDrawdown account),
            profitTarget = Some (acc_profitTarget account),
            evaluationPhases = Some (acc_evaluationPhases account),
            minTradingDays = Some (acc_minTradingDays account)\<rparr>))"

text \<open>The catalog \<open>propFirms\<close> is imported data; it is the first argument here.\<close>

definition toFirmRows :: "PropFirm list \<Rightarrow> real \<Rightarrow> FirmRow list" where
  "toFirmRows propFirms sz = map (toFirmRow sz) propFirms"

section \<open>Sorting an array with a compare function\<close>

text \<open>
  \<open>Array.prototype.sort\<close> belongs to the JavaScript engine. ECMAScript fixes its result
  (a stable sort) only for a compare function that is consistent; among other things,
  such a function answers \<open>0\<close> for an element and itself and opposite signs for a pair
  and the swapped pair. The calls the sort makes are the engine's choice. It is modelled
  as an insertion sort, the method of engines on short arrays such as the rows of a
  catalog: each item in turn moves towards the front of the sorted part, past every
  element the compare function places after it. Engines differ in the order of the two
  arguments of that question, which shows on a compare function that is not
  consistent:
  \<^item> \<open>AsksLaterEarlier\<close>: the item moves past \<open>prev\<close> when \<open>comparefn(item, prev) < 0\<close>;
  \<^item> \<open>AsksEarlierLater\<close>: the item stops at \<open>prev\<close> when \<open>comparefn(prev, item) \<le> 0\<close>.
\<close>

datatype sort_engine = AsksLaterEarlier | AsksEarlierLater

fun shifts :: "sort_engine \<Rightarrow> ('a \<Rightarrow> 'a \<Rightarrow> real) \<Rightarrow> 'a \<Rightarrow> 'a \<Rightarrow> bool" where
  "shifts AsksLaterEarlier comparefn item prev = (comparefn item prev < 0)"
| "shifts AsksEarlierLater comparefn item prev = (\<not> comparefn prev item \<le> 0)"

text \<open>
  The sorted part is held back to front: its head is the element just before the item.
\<close>

fun insert_item :: "sort_engine \<Rightarrow> ('a \<Rightarrow> 'a \<Rightarrow> real) \<Rightarrow> 'a \<Rightarrow> 'a list \<Rightarrow> 'a list" where
  "insert_item e comparefn item [] = [item]"
| "insert_item e comparefn item (prev # earlier) =
     (if shifts e comparefn item prev then prev # insert_item e comparefn item earlier
      else item # prev # earlier)"

definition array_sort :: "sort_engine \<Rightarrow> ('a \<Rightarrow> 'a \<Rightarrow> real) \<Rightarrow> 'a list \<Rightarrow> 'a list" where
  "array_sort e comparefn xs =
     rev (foldl (\<lambda>sorted_part item. insert_item e comparefn item sorted_part) [] xs)"

section \<open>The page\<close>

text \<open>The state of \<open>Page\<close>: \<open>useState<number>(10000)\<close> and its setter.\<close>

record PageState =
  selectedSize :: real

definition initialState :: PageState where
  "initialState = \<lparr>selectedSize = 10000\<rparr>"

definition setSelectedSize :: "real \<Rightarrow> PageState \<Rightarrow> PageState" where
  "setSelectedSize sz st = st\<lparr>selectedSize := sz\<rparr>"

text \<open>The compare function \<open>(a, b) => a - b\<close> of the fee list.\<close>

definition numberCompare :: "real \<Rightarrow> real \<Rightarrow> real" where
  "numberCompare a b = a - b"

text \<open>The list \<open>available\<close>: the fees that are not \<open>null\<close>, sorted.\<close>

definition available :: "sort_engine \<Rightarrow> FirmRow list \<Rightarrow> real list" where
  "available e rows =
     array_sort e numberCompare
       (map (\<lambda>row. the (fee row)) (filter (\<lambda>row. fee row \<noteq> None) rows))"

text \<open>\<open>xs[i] ?? null\<close>: a read past the end of an array is \<open>undefined\<close>.\<close>

definition at_or_null :: "'a list \<Rightarrow> nat \<Rightarrow> 'a option" where
  "at_or_null xs i = (if i < length xs then Some (xs ! i) else None)"

definition cheapestFee :: "sort_engine \<Rightarrow> FirmRow list \<Rightarrow> real option" where
  "cheapestFee e rows = at_or_null (available e rows) 0"

definition nextBestFee :: "sort_engine \<Rightarrow> FirmRow list \<Rightarrow> real option" where
  "nextBestFee e rows = at_or_null (available e rows) 1"

text \<open>The compare function of the table, with its two early returns.\<close>

definition rowCompare :: "FirmRow \<Rightarrow> FirmRow \<Rightarrow> real" where
  "rowCompare a b =
     (if fee a = None then 1
      else if fee b = None then - 1
      else the (fee a) - the (fee b))"

text \<open>\<open>rows.slice().sort(...)\<close>: the rows in the order of the table.\<close>

definition sortedRows :: "sort_engine \<Rightarrow> FirmRow list \<Rightarrow> FirmRow list" where
  "sortedRows e rows = array_sort e rowCompare rows"

definition isCheapest :: "real option \<Rightarrow> FirmRow \<Rightarrow> bool" where
  "isCheapest cheapest row = (cheapest \<noteq> None \<and> fee row = cheapest)"

text \<open>The placeholder of an absent value: U+2014, three bytes in UTF-8.\<close>

definition emDash :: string where
  "emDash = [CHR 0xE2, CHR 0x80, CHR 0x94]"

text \<open>
  \<open>formatCurrency\<close>. \<open>Number.prototype.toLocaleString\<close> depends on the locale of the
  browser; it is the first argument.
\<close>

definition formatCurrency :: "(real \<Rightarrow> string) \<Rightarrow> real option \<Rightarrow> string" where
  "formatCurrency toLocaleString v =
     (case v of None \<Rightarrow> emDash | Some x \<Rightarrow> ''$'' @ toLocaleString x)"

text \<open>
  The note under the fee of a row, or nothing. \<open>toFixed0\<close> stands for
  \<open>Number.prototype.toFixed\<close> at \<open>0\<close> digits.
\<close>

definition savingsNote ::
  "(real \<Rightarrow> string) \<Rightarrow> real option \<Rightarrow> real option \<Rightarrow> FirmRow \<Rightarrow> string option" where
  "savingsNote toFixed0 cheapest nextBest row =
     (if isCheapest cheapest row \<and> fee row \<noteq> None \<and> nextBest \<noteq> None
      then Some (''Save $'' @ toFixed0 (max 0 (the nextBest - the (fee row)))
                 @ '' vs. next option'')
      else None)"

section \<open>The vocabulary of the specification\<close>

text \<open>The fees that are present, in the order of the rows.\<close>

definition presentFees :: "FirmRow list \<Rightarrow> real list" where
  "presentFees rows = List.map_filter fee rows"

text \<open>
  The order of the table as the specification words it: a present fee is not above the
  fee of a later row, and only absent fees follow an absent fee.
\<close>

definition feeOrdered :: "FirmRow \<Rightarrow> FirmRow \<Rightarrow> bool" where
  "feeOrdered a b =
     (case fee a of None \<Rightarrow> fee b = None
      | Some x \<Rightarrow> (case fee b of None \<Rightarrow> True | Some y \<Rightarrow> x \<le> y))"

text \<open>The rows whose fee is the least present fee.\<close>

definition tiedAtMinimum :: "FirmRow list \<Rightarrow> FirmRow list" where
  "tiedAtMinimum rows =
     filter (\<lambda>row. presentFees rows \<noteq> [] \<and> fee row = Some (Min (set (presentFees rows)))) rows"

text \<open>
  The third fee in ascending order among the present fees, absent when there are fewer
  than three. When exactly two rows are tied at the minimum, it is the least fee above
  the minimum.
\<close>

definition thirdFee :: "FirmRow list \<Rightarrow> real option" where
  "thirdFee rows = at_or_null (sort (presentFees rows)) 2"

text \<open>
  The supported sizes \<open>accountSizes\<close> are imported data, like the catalog. The smallest
  of them, and what it is for a size to be a most common tier size of the catalog.
\<close>

definition smallestSize :: "real list \<Rightarrow> real" where
  "smallestSize sizes = Min (set sizes)"

definition tierCount :: "PropFirm list \<Rightarrow> real \<Rightarrow> nat" where
  "tierCount propFirms sz =
     length (filter (\<lambda>item. acc_size item = sz) (concat (map accounts propFirms)))"

definition mostCommonSize :: "PropFirm list \<Rightarrow> real list \<Rightarrow> real \<Rightarrow> bool" where
  "mostCommonSize propFirms sizes sz =
     (sz \<in> set sizes \<and> (\<forall>other \<in> set sizes. tierCount propFirms other \<le> tierCount propFirms sz))"

section \<open>Example data\<close>

definition tier :: "real \<Rightarrow> real \<Rightarrow> AccountTier" where
  "tier sz price =
     \<lparr>acc_size = sz, acc_fee = price, acc_payoutSplit = ''80%'',
      acc_maxDrawdown = ''10%'', acc_profitTarget = ''8%'',
      acc_evaluationPhases = 2, acc_minTradingDays = 5\<rparr>"

definition firmOf :: "string \<Rightarrow> AccountTier list \<Rightarrow> PropFirm" where
  "firmOf nm tiers =
     \<lparr>name = nm, tagline = ''tagline'', website = ''https://example.com'',
      founded = 2020, headquartered = ''London'', strengths = [], cautions = [],
      accounts = tiers\<rparr>"

text \<open>The catalog of the first scenario of the specification.\<close>

definition firmA :: PropFirm where
  "firmA = firmOf ''A'' [tier 5000 60, tier 10000 100]"

definition firmB :: PropFirm where
  "firmB = firmOf ''B'' [tier 10000 150]"

definition firmC :: PropFirm where
  "firmC = firmOf ''C'' [tier 25000 200]"

definition catalogABC :: "PropFirm list" where
  "catalogABC = [firmA, firmB, firmC]"

text \<open>The same firms, the one without a tier at 10000 first.\<close>

definition catalogCBA :: "PropFirm list" where
  "catalogCBA = [firmC, firmB, firmA]"

text \<open>Two firms without a tier at 10000.\<close>

definition firmD :: PropFirm where
  "firmD = firmOf ''D'' [tier 50000 300]"

definition catalogCD :: "PropFirm list" where
  "catalogCD = [firmC, firmD]"

text \<open>Two firms tied at the lowest fee, alone and with a third firm.\<close>

definition firmT :: PropFirm where
  "firmT = firmOf ''T'' [tier 10000 100]"

definition catalogTie2 :: "PropFirm list" where
  "catalogTie2 = [firmA, firmT]"

definition catalogTie3 :: "PropFirm list" where
  "catalogTie3 = [firmB, firmA, firmT]"

text \<open>A catalog whose smallest and most common tier size is 5000, and its sizes.\<close>

definition firmE :: PropFirm where
  "firmE = firmOf ''E'' [tier 5000 55, tier 25000 180]"

definition catalogAE :: "PropFirm list" where
  "catalogAE = [firmA, firmE]"

definition sizesAE :: "real list" where
  "sizesAE = [5000, 10000, 25000]"

text \<open>
  A firm whose fee at 10000 does not divide evenly in binary64, and which has a tier of
  size zero.
\<close>

definition firmN :: PropFirm where
  "firmN = firmOf ''N'' [tier 10000 99, tier 0 50]"

definition catalogN :: "PropFirm list" where
  "catalogN = [firmN, firmA]"

text \<open>A firm that gives the evaluation away, and stand-ins for the number formats.\<close>

definition firmZ :: PropFirm where
  "firmZ = firmOf ''Z'' [tier 10000 0]"

definition catalogZ :: "PropFirm list" where
  "catalogZ = [firmB, firmZ, firmC]"

definition plainNumber :: "real \<Rightarrow> string" where
  "plainNumber x = (if x = 0 then ''0'' else if x = 50 then ''50'' else ''#'')"

section \<open>The row projection\<close>

lemma find_size_None:
  "(find (\<lambda>item. acc_size item = sz) tiers = None) = (sz \<notin> acc_size ` set tiers)"
  by (induction tiers) auto

lemma find_size_Some:
  "find (\<lambda>item. acc_size item = sz) tiers = Some t \<Longrightarrow> t \<in> set tiers \<and> acc_size t = sz"
  by (induction tiers) (auto split: if_splits)

lemma firm_toFirmRow: "firm (toFirmRow sz f) = f"
  by (simp add: toFirmRow_def Let_def split: option.split)

lemma accountSize_toFirmRow: "accountSize (toFirmRow sz f) = sz"
  by (simp add: toFirmRow_def Let_def split: option.split)

lemma toFirmRow_no_tier:
  assumes "sz \<notin> acc_size ` set (accounts f)"
  shows "fee (toFirmRow sz f) = None \<and> feePer10k (toFirmRow sz f) = None
    \<and> payoutSplit (toFirmRow sz f) = None \<and> drawdown (toFirmRow sz f) = None
    \<and> profitTarget (toFirmRow sz f) = None \<and> evaluationPhases (toFirmRow sz f) = None
    \<and> minTradingDays (toFirmRow sz f) = None"
proof -
  from assms have "find (\<lambda>item. acc_size item = sz) (accounts f) = None"
    by (simp add: find_size_None)
  then show ?thesis by (simp add: toFirmRow_def)
qed

lemma toFirmRow_tier:
  assumes "sz \<in> acc_size ` set (accounts f)"
  shows "fee (toFirmRow sz f) \<noteq> None \<and> feePer10k (toFirmRow sz f) \<noteq> None
    \<and> payoutSplit (toFirmRow sz f) \<noteq> None \<and> drawdown (toFirmRow sz f) \<noteq> None
    \<and> profitTarget (toFirmRow sz f) \<noteq> None \<and> evaluationPhases (toFirmRow sz f) \<noteq> None
    \<and> minTradingDays (toFirmRow sz f) \<noteq> None"
proof -
  from assms obtain t where "find (\<lambda>item. acc_size item = sz) (accounts f) = Some t"
    using find_size_None [of sz "accounts f"] by (cases "find (\<lambda>item. acc_size item = sz) (accounts f)") auto
  then show ?thesis by (simp add: toFirmRow_def Let_def)
qed

lemma witness_rows_ABC:
  "toFirmRows catalogABC 10000 = [toFirmRow 10000 firmA, toFirmRow 10000 firmB, toFirmRow 10000 firmC]"
  by (simp add: toFirmRows_def catalogABC_def)

text \<open>
  C1. For every selected size, \<open>toFirmRows\<close> returns one row per firm, in the order of
  the catalog, each carrying the selected size. If the firm of a row has a tier of the
  selected size, the fee, the fee per 10k and the five descriptive fields of the row are
  all present; if it has none, they are all absent.
\<close>

theorem toFirmRows_one_row_per_firm:
  "map firm (toFirmRows propFirms sz) = propFirms
   \<and> (\<forall>row \<in> set (toFirmRows propFirms sz).
        accountSize row = sz
        \<and> (if sz \<in> acc_size ` set (accounts (firm row))
           then fee row \<noteq> None \<and> feePer10k row \<noteq> None \<and> payoutSplit row \<noteq> None
             \<and> drawdown row \<noteq> None \<and> profitTarget row \<noteq> None
             \<and> evaluationPhases row \<noteq> None \<and> minTradingDays row \<noteq> None
           else fee row = None \<and> feePer10k row = None \<and> payoutSplit row = None
             \<and> drawdown row = None \<and> profitTarget row = None
             \<and> evaluationPhases row = None \<and> minTradingDays row = None))"
proof (intro conjI ballI)
  show "map firm (toFirmRows propFirms sz) = propFirms"
    by (induction propFirms) (simp_all add: toFirmRows_def firm_toFirmRow)
next
  fix row assume "row \<in> set (toFirmRows propFirms sz)"
  then obtain f where row: "row = toFirmRow sz f"
    by (auto simp: toFirmRows_def)
  show "accountSize row = sz"
    by (simp add: row accountSize_toFirmRow)
  show "if sz \<in> acc_size ` set (accounts (firm row))
           then fee row \<noteq> None \<and> feePer10k row \<noteq> None \<and> payoutSplit row \<noteq> None
             \<and> drawdown row \<noteq> None \<and> profitTarget row \<noteq> None
             \<and> evaluationPhases row \<noteq> None \<and> minTradingDays row \<noteq> None
           else fee row = None \<and> feePer10k row = None \<and> payoutSplit row = None
             \<and> drawdown row = None \<and> profitTarget row = None
             \<and> evaluationPhases row = None \<and> minTradingDays row = None"
    using toFirmRow_tier [of sz f] toFirmRow_no_tier [of sz f]
    by (simp add: row firm_toFirmRow)
qed

theorem toFirmRows_one_row_per_firm_witness:
  "map firm (toFirmRows catalogABC 10000) = catalogABC
   \<and> toFirmRow 10000 firmA \<in> set (toFirmRows catalogABC 10000)
   \<and> 10000 \<in> acc_size ` set (accounts firmA)
   \<and> fee (toFirmRow 10000 firmA) \<noteq> None
   \<and> payoutSplit (toFirmRow 10000 firmA) \<noteq> None
   \<and> toFirmRow 10000 firmC \<in> set (toFirmRows catalogABC 10000)
   \<and> 10000 \<notin> acc_size ` set (accounts firmC)
   \<and> fee (toFirmRow 10000 firmC) = None
   \<and> payoutSplit (toFirmRow 10000 firmC) = None"
proof -
  have a: "toFirmRow 10000 firmA \<in> set (toFirmRows catalogABC 10000)"
    and c: "toFirmRow 10000 firmC \<in> set (toFirmRows catalogABC 10000)"
    by (simp_all add: witness_rows_ABC)
  have ta: "10000 \<in> acc_size ` set (accounts firmA)"
    by (simp add: firmA_def firmOf_def tier_def)
  have tc: "10000 \<notin> acc_size ` set (accounts firmC)"
    by (simp add: firmC_def firmOf_def tier_def)
  note main = toFirmRows_one_row_per_firm [of catalogABC 10000]
  from main have "map firm (toFirmRows catalogABC 10000) = catalogABC" by (rule conjunct1)
  moreover from main [THEN conjunct2, rule_format, OF a] ta
  have "fee (toFirmRow 10000 firmA) \<noteq> None \<and> payoutSplit (toFirmRow 10000 firmA) \<noteq> None"
    by (simp add: firm_toFirmRow)
  moreover from main [THEN conjunct2, rule_format, OF c] tc
  have "fee (toFirmRow 10000 firmC) = None \<and> payoutSplit (toFirmRow 10000 firmC) = None"
    by (simp add: firm_toFirmRow)
  ultimately show ?thesis using a c ta tc by simp
qed

lemma toFirmRow_found:
  assumes "find (\<lambda>item. acc_size item = sz) (accounts f) = Some account"
  shows "fee (toFirmRow sz f) = Some (acc_fee account)"
    and "feePer10k (toFirmRow sz f) = Some (js_times (js_divide (acc_fee account) sz) 10000)"
proof -
  from find_size_Some [OF assms] have "acc_size account = sz" by (rule conjunct2)
  with assms show "fee (toFirmRow sz f) = Some (acc_fee account)"
    and "feePer10k (toFirmRow sz f) = Some (js_times (js_divide (acc_fee account) sz) 10000)"
    by (simp_all add: toFirmRow_def Let_def)
qed

lemma toFirmRow_not_found:
  assumes "find (\<lambda>item. acc_size item = sz) (accounts f) = None"
  shows "fee (toFirmRow sz f) = None"
  using assms by (simp add: toFirmRow_def)

section \<open>The insertion sort\<close>

lemma mset_insert_item: "mset (insert_item e c x acc) = add_mset x (mset acc)"
  by (induction acc) auto

lemma mset_foldl_insert_item:
  "mset (foldl (\<lambda>sorted_part item. insert_item e c item sorted_part) acc xs) = mset acc + mset xs"
  by (induction xs arbitrary: acc) (auto simp: mset_insert_item)

lemma mset_array_sort: "mset (array_sort e c xs) = mset xs"
  by (simp add: array_sort_def mset_foldl_insert_item)

lemma set_insert_item: "set (insert_item e c x acc) = insert x (set acc)"
  using mset_insert_item [of e c x acc] by (metis set_mset_add_mset_insert set_mset_mset)

lemma shifts_number: "shifts e numberCompare x y = (x < y)"
  by (cases e) (auto simp: numberCompare_def)

lemma descending_insert_number:
  "sorted_wrt (\<lambda>a b. b \<le> a) acc \<Longrightarrow> sorted_wrt (\<lambda>a b. b \<le> a) (insert_item e numberCompare x acc)"
  by (induction acc) (auto simp: shifts_number set_insert_item)

lemma descending_foldl_number:
  "sorted_wrt (\<lambda>a b. b \<le> a) acc \<Longrightarrow>
   sorted_wrt (\<lambda>a b. b \<le> a) (foldl (\<lambda>sorted_part item. insert_item e numberCompare item sorted_part) acc xs)"
  by (induction xs arbitrary: acc) (auto simp: descending_insert_number)

lemma sorted_array_sort_number: "sorted (array_sort e numberCompare xs)"
  using descending_foldl_number [of "[]" e xs]
  by (simp add: array_sort_def sorted_wrt_rev)

lemma array_sort_number: "array_sort e numberCompare xs = sort xs"
  by (rule sym, rule properties_for_sort) (simp_all add: mset_array_sort sorted_array_sort_number)

lemma feeOrdered_trans: "feeOrdered a b \<Longrightarrow> feeOrdered b c \<Longrightarrow> feeOrdered a c"
  by (auto simp: feeOrdered_def split: option.splits)

lemma shifts_row_ordered: "shifts e rowCompare item prev \<Longrightarrow> feeOrdered item prev"
  by (cases e) (auto simp: rowCompare_def feeOrdered_def split: option.splits if_splits)

lemma stays_row_ordered: "\<not> shifts e rowCompare item prev \<Longrightarrow> feeOrdered prev item"
  by (cases e) (auto simp: rowCompare_def feeOrdered_def split: option.splits if_splits)

lemma descending_insert_row:
  "sorted_wrt (\<lambda>a b. feeOrdered b a) acc \<Longrightarrow>
   sorted_wrt (\<lambda>a b. feeOrdered b a) (insert_item e rowCompare item acc)"
proof (induction acc)
  case Nil
  then show ?case by simp
next
  case (Cons prev earlier)
  show ?case
  proof (cases "shifts e rowCompare item prev")
    case True
    with Cons show ?thesis
      by (auto simp: set_insert_item shifts_row_ordered)
  next
    case False
    then have "feeOrdered prev item" by (rule stays_row_ordered)
    with Cons.prems False show ?thesis
      by (auto intro: feeOrdered_trans)
  qed
qed

lemma descending_foldl_row:
  "sorted_wrt (\<lambda>a b. feeOrdered b a) acc \<Longrightarrow>
   sorted_wrt (\<lambda>a b. feeOrdered b a) (foldl (\<lambda>sorted_part item. insert_item e rowCompare item sorted_part) acc xs)"
  by (induction xs arbitrary: acc) (auto simp: descending_insert_row)

lemma sortedRows_feeOrdered: "sorted_wrt feeOrdered (sortedRows e rows)"
  using descending_foldl_row [of "[]" e rows]
  by (simp add: sortedRows_def array_sort_def sorted_wrt_rev)

lemma filter_insert_item:
  assumes "\<And>prev. prev \<in> set acc \<Longrightarrow> P item \<Longrightarrow> P prev \<Longrightarrow> \<not> shifts e c item prev"
  shows "filter P (rev (insert_item e c item acc)) = filter P (rev acc) @ filter P [item]"
  using assms by (induction acc) auto

lemma filter_foldl_insert_item:
  assumes "\<And>item prev. P item \<Longrightarrow> P prev \<Longrightarrow> \<not> shifts e c item prev"
  shows "filter P (rev (foldl (\<lambda>sorted_part item. insert_item e c item sorted_part) acc xs))
       = filter P (rev acc) @ filter P xs"
proof (induction xs arbitrary: acc)
  case Nil
  then show ?case by simp
next
  case (Cons x xs)
  have "filter P (rev (insert_item e c x acc)) = filter P (rev acc) @ filter P [x]"
    by (rule filter_insert_item) (rule assms)
  with Cons [of "insert_item e c x acc"] show ?case by simp
qed

lemma filter_array_sort:
  assumes "\<And>item prev. P item \<Longrightarrow> P prev \<Longrightarrow> \<not> shifts e c item prev"
  shows "filter P (array_sort e c xs) = filter P xs"
  using filter_foldl_insert_item [of P e c "[]" xs] assms by (simp add: array_sort_def)

lemma sortedRows_stable_present:
  "filter (\<lambda>row. fee row = Some x) (sortedRows e rows) = filter (\<lambda>row. fee row = Some x) rows"
  unfolding sortedRows_def
  by (rule filter_array_sort) (cases e; simp add: rowCompare_def)

lemma sortedRows_stable_absent_later_earlier:
  "filter (\<lambda>row. fee row = None) (sortedRows AsksLaterEarlier rows) = filter (\<lambda>row. fee row = None) rows"
  unfolding sortedRows_def
  by (rule filter_array_sort) (simp add: rowCompare_def)

section \<open>The cheapest and the next best fee\<close>

lemma present_fees_code:
  "map (\<lambda>row. the (fee row)) (filter (\<lambda>row. fee row \<noteq> None) rows) = presentFees rows"
  by (induction rows) (auto simp: presentFees_def List.map_filter_simps split: option.splits)

lemma available_sort: "available e rows = sort (presentFees rows)"
  unfolding available_def present_fees_code by (rule array_sort_number)

lemma sorted_nth0_Min:
  assumes "sorted ys" "ys \<noteq> []"
  shows "ys ! 0 = Min (set ys)"
proof -
  from assms obtain y rest where ys: "ys = y # rest" by (cases ys) auto
  with assms have "\<forall>z \<in> set ys. y \<le> z" by auto
  then have "Min (set ys) = y" using ys by (intro Min_eqI) auto
  with ys show ?thesis by simp
qed

lemma sort_nth0_Min:
  assumes "xs \<noteq> []"
  shows "sort xs ! 0 = Min (set (xs::real list))"
proof -
  from assms have "length (sort xs) \<noteq> 0" by simp
  then have "sort xs \<noteq> []" by (simp only: length_0_conv not_False_eq_True)
  with sorted_nth0_Min [of "sort xs"] show ?thesis by simp
qed

lemma cheapestFee_Min:
  "cheapestFee e rows = (if presentFees rows = [] then None else Some (Min (set (presentFees rows))))"
  by (simp add: cheapestFee_def at_or_null_def available_sort sort_nth0_Min)

lemma nextBestFee_nth:
  "nextBestFee e rows =
     (if length (presentFees rows) < 2 then None else Some (sort (presentFees rows) ! 1))"
  by (auto simp: nextBestFee_def at_or_null_def available_sort)

text \<open>
  C2. For every selection and on either engine, \<open>cheapestFee\<close> is the minimum of the
  present fees of the rows, or absent when no row has a fee; \<open>nextBestFee\<close> is the
  element at index 1 of the ascending list of the present fees (duplicates kept, so it
  may equal the minimum), or absent when fewer than two rows have a fee.
\<close>

theorem cheapest_and_next_best:
  "cheapestFee e rows =
     (if presentFees rows = [] then None else Some (Min (set (presentFees rows))))
   \<and> nextBestFee e rows =
     (if length (presentFees rows) < 2 then None else Some (sort (presentFees rows) ! 1))"
  using cheapestFee_Min nextBestFee_nth by blast

lemma fee_rows_ABC:
  "fee (toFirmRow 10000 firmA) = Some 100"
  "fee (toFirmRow 10000 firmB) = Some 150"
  "fee (toFirmRow 10000 firmC) = None"
  by (simp_all add: toFirmRow_def firmA_def firmB_def firmC_def firmOf_def tier_def)

lemma presentFees_ABC: "presentFees (toFirmRows catalogABC 10000) = [100, 150]"
  by (simp add: witness_rows_ABC presentFees_def List.map_filter_simps fee_rows_ABC)

theorem cheapest_and_next_best_witness:
  "cheapestFee AsksLaterEarlier (toFirmRows catalogABC 10000) = Some 100
   \<and> nextBestFee AsksLaterEarlier (toFirmRows catalogABC 10000) = Some 150
   \<and> cheapestFee AsksEarlierLater (toFirmRows catalogABC 5000) = Some 60
   \<and> nextBestFee AsksEarlierLater (toFirmRows catalogABC 5000) = None
   \<and> cheapestFee AsksEarlierLater (toFirmRows catalogABC 100000) = None
   \<and> cheapestFee AsksEarlierLater (toFirmRows catalogTie2 10000) = Some 100
   \<and> nextBestFee AsksEarlierLater (toFirmRows catalogTie2 10000) = Some 100"
proof -
  have p5: "presentFees (toFirmRows catalogABC 5000) = [60]"
    by (simp add: toFirmRows_def catalogABC_def presentFees_def List.map_filter_simps
        toFirmRow_def firmA_def firmB_def firmC_def firmOf_def tier_def)
  have p100: "presentFees (toFirmRows catalogABC 100000) = []"
    by (simp add: toFirmRows_def catalogABC_def presentFees_def List.map_filter_simps
        toFirmRow_def firmA_def firmB_def firmC_def firmOf_def tier_def)
  have tie: "presentFees (toFirmRows catalogTie2 10000) = [100, 100]"
    by (simp add: toFirmRows_def catalogTie2_def presentFees_def List.map_filter_simps
        toFirmRow_def firmA_def firmT_def firmOf_def tier_def)
  from cheapest_and_next_best [of AsksLaterEarlier "toFirmRows catalogABC 10000"]
  have "cheapestFee AsksLaterEarlier (toFirmRows catalogABC 10000) = Some 100
    \<and> nextBestFee AsksLaterEarlier (toFirmRows catalogABC 10000) = Some 150"
    by (simp add: presentFees_ABC)
  moreover from cheapest_and_next_best [of AsksEarlierLater "toFirmRows catalogABC 5000"]
  have "cheapestFee AsksEarlierLater (toFirmRows catalogABC 5000) = Some 60
    \<and> nextBestFee AsksEarlierLater (toFirmRows catalogABC 5000) = None"
    by (simp add: p5)
  moreover from cheapest_and_next_best [of AsksEarlierLater "toFirmRows catalogABC 100000"]
  have "cheapestFee AsksEarlierLater (toFirmRows catalogABC 100000) = None"
    by (simp add: p100)
  moreover from cheapest_and_next_best [of AsksEarlierLater "toFirmRows catalogTie2 10000"]
  have "cheapestFee AsksEarlierLater (toFirmRows catalogTie2 10000) = Some 100
    \<and> nextBestFee AsksEarlierLater (toFirmRows catalogTie2 10000) = Some 100"
    by (simp add: tie)
  ultimately show ?thesis by simp
qed

section \<open>The cheapest flag\<close>

lemma set_sortedRows: "set (sortedRows e rows) = set rows"
  using mset_array_sort [of e rowCompare rows] unfolding sortedRows_def by (rule mset_eq_setD)

lemma fee_in_presentFees: "row \<in> set rows \<Longrightarrow> fee row = Some x \<Longrightarrow> x \<in> set (presentFees rows)"
  by (induction rows) (auto simp: presentFees_def List.map_filter_simps split: option.splits)

lemma presentFees_empty: "(presentFees rows = []) = (\<forall>row \<in> set rows. fee row = None)"
  by (induction rows) (auto simp: presentFees_def List.map_filter_simps split: option.splits)

text \<open>
  C3. A row of the table is flagged as cheapest if and only if its fee is present and
  equals the minimum of the present fees of the selection. Hence all rows tied at the
  minimum are flagged, and when no row has a fee, no row is flagged.
\<close>

theorem cheapest_flag:
  assumes "row \<in> set (sortedRows e rows)"
  shows "(isCheapest (cheapestFee e rows) row
          = (\<exists>x. fee row = Some x \<and> x = Min (set (presentFees rows))))
       \<and> (presentFees rows = [] \<longrightarrow> \<not> isCheapest (cheapestFee e rows) row)"
proof -
  from assms have row: "row \<in> set rows" by (simp add: set_sortedRows)
  have "isCheapest (cheapestFee e rows) row
         = (\<exists>x. fee row = Some x \<and> x = Min (set (presentFees rows)))"
  proof (cases "presentFees rows = []")
    case True
    with row have "fee row = None" by (simp add: presentFees_empty)
    with True show ?thesis by (simp add: isCheapest_def cheapestFee_Min)
  next
    case False
    then show ?thesis by (auto simp: isCheapest_def cheapestFee_Min)
  qed
  moreover have "presentFees rows = [] \<longrightarrow> \<not> isCheapest (cheapestFee e rows) row"
    by (simp add: isCheapest_def cheapestFee_Min)
  ultimately show ?thesis by blast
qed

lemma sortedRows_ABC:
  "sortedRows e (toFirmRows catalogABC 10000)
   = [toFirmRow 10000 firmA, toFirmRow 10000 firmB, toFirmRow 10000 firmC]"
  by (cases e) (simp_all add: sortedRows_def array_sort_def witness_rows_ABC rowCompare_def fee_rows_ABC)

lemma fee_rows_tie:
  "fee (toFirmRow 10000 firmT) = Some 100"
  by (simp add: toFirmRow_def firmT_def firmOf_def tier_def)

lemma presentFees_Tie3: "presentFees (toFirmRows catalogTie3 10000) = [150, 100, 100]"
  by (simp add: toFirmRows_def catalogTie3_def presentFees_def List.map_filter_simps
      fee_rows_ABC fee_rows_tie)

lemma sortedRows_Tie3:
  "sortedRows e (toFirmRows catalogTie3 10000)
   = [toFirmRow 10000 firmA, toFirmRow 10000 firmT, toFirmRow 10000 firmB]"
  by (cases e) (simp_all add: sortedRows_def array_sort_def toFirmRows_def catalogTie3_def
      rowCompare_def fee_rows_ABC fee_rows_tie)

theorem cheapest_flag_witness:
  "toFirmRow 10000 firmA \<in> set (sortedRows AsksLaterEarlier (toFirmRows catalogTie3 10000))
   \<and> isCheapest (cheapestFee AsksLaterEarlier (toFirmRows catalogTie3 10000)) (toFirmRow 10000 firmA)
   \<and> toFirmRow 10000 firmT \<in> set (sortedRows AsksLaterEarlier (toFirmRows catalogTie3 10000))
   \<and> isCheapest (cheapestFee AsksLaterEarlier (toFirmRows catalogTie3 10000)) (toFirmRow 10000 firmT)
   \<and> toFirmRow 10000 firmB \<in> set (sortedRows AsksLaterEarlier (toFirmRows catalogTie3 10000))
   \<and> \<not> isCheapest (cheapestFee AsksLaterEarlier (toFirmRows catalogTie3 10000)) (toFirmRow 10000 firmB)
   \<and> toFirmRow 100000 firmA \<in> set (sortedRows AsksLaterEarlier (toFirmRows catalogABC 100000))
   \<and> presentFees (toFirmRows catalogABC 100000) = []
   \<and> \<not> isCheapest (cheapestFee AsksLaterEarlier (toFirmRows catalogABC 100000)) (toFirmRow 100000 firmA)"
proof -
  let ?rows = "toFirmRows catalogTie3 10000"
  have a: "toFirmRow 10000 firmA \<in> set (sortedRows AsksLaterEarlier ?rows)"
    and t: "toFirmRow 10000 firmT \<in> set (sortedRows AsksLaterEarlier ?rows)"
    and b: "toFirmRow 10000 firmB \<in> set (sortedRows AsksLaterEarlier ?rows)"
    by (simp_all add: sortedRows_Tie3)
  have n: "toFirmRow 100000 firmA \<in> set (sortedRows AsksLaterEarlier (toFirmRows catalogABC 100000))"
    by (simp add: set_sortedRows toFirmRows_def catalogABC_def)
  have p100: "presentFees (toFirmRows catalogABC 100000) = []"
    by (simp add: toFirmRows_def catalogABC_def presentFees_def List.map_filter_simps
        toFirmRow_def firmA_def firmB_def firmC_def firmOf_def tier_def)
  from cheapest_flag [OF a]
  have "isCheapest (cheapestFee AsksLaterEarlier ?rows) (toFirmRow 10000 firmA)"
    by (simp add: presentFees_Tie3 fee_rows_ABC)
  moreover from cheapest_flag [OF t]
  have "isCheapest (cheapestFee AsksLaterEarlier ?rows) (toFirmRow 10000 firmT)"
    by (simp add: presentFees_Tie3 fee_rows_tie)
  moreover from cheapest_flag [OF b]
  have "\<not> isCheapest (cheapestFee AsksLaterEarlier ?rows) (toFirmRow 10000 firmB)"
    by (simp add: presentFees_Tie3 fee_rows_ABC)
  moreover from cheapest_flag [OF n, THEN conjunct2, rule_format, OF p100]
  have "\<not> isCheapest (cheapestFee AsksLaterEarlier (toFirmRows catalogABC 100000)) (toFirmRow 100000 firmA)" .
  ultimately show ?thesis using a t b n p100 by simp
qed

section \<open>The order of the table\<close>

text \<open>
  C4. In the order of the table, on either engine, the rows are those of the projection;
  of two rows with present fees the earlier one has the lower or equal fee; and a row
  that follows a row with an absent fee has an absent fee too, so that every row with
  an absent fee comes after every row with a present fee.
\<close>

theorem table_order:
  assumes "i < j" and "j < length (sortedRows e rows)"
  shows "mset (sortedRows e rows) = mset rows
    \<and> (\<forall>x y. fee (sortedRows e rows ! i) = Some x \<and> fee (sortedRows e rows ! j) = Some y
          \<longrightarrow> x \<le> y)
    \<and> (fee (sortedRows e rows ! i) = None \<longrightarrow> fee (sortedRows e rows ! j) = None)"
proof -
  have "sorted_wrt feeOrdered (sortedRows e rows)" by (rule sortedRows_feeOrdered)
  with assms have "feeOrdered (sortedRows e rows ! i) (sortedRows e rows ! j)"
    by (simp add: sorted_wrt_iff_nth_less)
  then have "(\<forall>x y. fee (sortedRows e rows ! i) = Some x \<and> fee (sortedRows e rows ! j) = Some y
          \<longrightarrow> x \<le> y)
    \<and> (fee (sortedRows e rows ! i) = None \<longrightarrow> fee (sortedRows e rows ! j) = None)"
    by (auto simp: feeOrdered_def split: option.splits)
  moreover have "mset (sortedRows e rows) = mset rows"
    unfolding sortedRows_def by (rule mset_array_sort)
  ultimately show ?thesis by blast
qed

lemma sortedRows_CBA:
  "sortedRows e (toFirmRows catalogCBA 10000)
   = [toFirmRow 10000 firmA, toFirmRow 10000 firmB, toFirmRow 10000 firmC]"
  by (cases e) (simp_all add: sortedRows_def array_sort_def toFirmRows_def catalogCBA_def
      rowCompare_def fee_rows_ABC)

theorem table_order_witness:
  "(0::nat) < 1 \<and> 1 < length (sortedRows AsksEarlierLater (toFirmRows catalogCBA 10000))
   \<and> fee (sortedRows AsksEarlierLater (toFirmRows catalogCBA 10000) ! 0) = Some 100
   \<and> fee (sortedRows AsksEarlierLater (toFirmRows catalogCBA 10000) ! 1) = Some 150
   \<and> (100::real) \<le> 150
   \<and> (1::nat) < 2 \<and> 2 < length (sortedRows AsksLaterEarlier (toFirmRows catalogCBA 10000))
   \<and> fee (sortedRows AsksLaterEarlier (toFirmRows catalogCBA 10000) ! 1) \<noteq> None
   \<and> fee (sortedRows AsksLaterEarlier (toFirmRows catalogCBA 10000) ! 2) = None
   \<and> mset (sortedRows AsksLaterEarlier (toFirmRows catalogCBA 10000))
       = mset (toFirmRows catalogCBA 10000)"
proof -
  have l1: "1 < length (sortedRows AsksEarlierLater (toFirmRows catalogCBA 10000))"
    and l2: "2 < length (sortedRows AsksLaterEarlier (toFirmRows catalogCBA 10000))"
    by (simp_all add: sortedRows_CBA)
  have f0: "fee (sortedRows AsksEarlierLater (toFirmRows catalogCBA 10000) ! 0) = Some 100"
    and f1: "fee (sortedRows AsksEarlierLater (toFirmRows catalogCBA 10000) ! 1) = Some 150"
    and g1: "fee (sortedRows AsksLaterEarlier (toFirmRows catalogCBA 10000) ! 1) \<noteq> None"
    and g2: "fee (sortedRows AsksLaterEarlier (toFirmRows catalogCBA 10000) ! 2) = None"
    by (simp_all add: sortedRows_CBA fee_rows_ABC)
  have o1: "(0::nat) < 1" and o2: "(1::nat) < 2" by simp_all
  from table_order [OF o1 l1] f0 f1 have "(100::real) \<le> 150" by blast
  moreover from table_order [OF o2 l2]
  have "mset (sortedRows AsksLaterEarlier (toFirmRows catalogCBA 10000))
       = mset (toFirmRows catalogCBA 10000)" by (rule conjunct1)
  ultimately show ?thesis using l1 l2 f0 f1 g1 g2 by simp
qed

lemma fee_rowD: "fee (toFirmRow 10000 firmD) = None"
  by (simp add: toFirmRow_def firmD_def firmOf_def tier_def)

lemma name_rows_CD:
  "name (firm (toFirmRow 10000 firmC)) = ''C''" "name (firm (toFirmRow 10000 firmD)) = ''D''"
  by (simp_all add: firm_toFirmRow firmC_def firmD_def firmOf_def)

text \<open>
  C5. The catalog lists firm C and then firm D; neither has a tier at 10000.
  \<open>rowCompare\<close> returns \<open>1\<close> as soon as its first argument has no fee, so it places each
  of the two rows after the other and never reports the tie. The engine that asks for
  (later, earlier) leaves the rows in the order of the catalog; the engine that asks
  for (earlier, later) shows D before C.
\<close>

theorem absent_rows_order:
  "rowCompare (toFirmRow 10000 firmC) (toFirmRow 10000 firmD) = 1
   \<and> rowCompare (toFirmRow 10000 firmD) (toFirmRow 10000 firmC) = 1
   \<and> map (name \<circ> firm) (toFirmRows catalogCD 10000) = [''C'', ''D'']
   \<and> map (name \<circ> firm) (sortedRows AsksLaterEarlier (toFirmRows catalogCD 10000)) = [''C'', ''D'']
   \<and> map (name \<circ> firm) (sortedRows AsksEarlierLater (toFirmRows catalogCD 10000)) = [''D'', ''C'']"
  by (simp add: sortedRows_def array_sort_def toFirmRows_def catalogCD_def rowCompare_def
      fee_rows_ABC fee_rowD name_rows_CD)

section \<open>Ties at the minimum and the savings note\<close>

lemma length_tied:
  "length (filter (\<lambda>row. fee row = Some m) rows) = length (filter (\<lambda>x. x = m) (presentFees rows))"
  by (induction rows) (auto simp: presentFees_def List.map_filter_simps split: option.splits)

lemma tiedAtMinimum_nonempty:
  "tiedAtMinimum rows \<noteq> [] \<Longrightarrow> presentFees rows \<noteq> []"
  by (auto simp: tiedAtMinimum_def filter_empty_conv)

lemma tiedAtMinimum_present:
  "presentFees rows \<noteq> [] \<Longrightarrow>
   tiedAtMinimum rows = filter (\<lambda>row. fee row = Some (Min (set (presentFees rows)))) rows"
  by (simp add: tiedAtMinimum_def)

lemma length_filter_sort: "length (filter P (sort xs)) = length (filter P xs)"
proof -
  have "mset (filter P (sort xs)) = mset (filter P xs)" by simp
  then show ?thesis by (rule mset_eq_length)
qed

lemma sorted_nth1_Min:
  fixes ys :: "real list"
  assumes "sorted ys" and "2 \<le> length (filter (\<lambda>x. x = Min (set ys)) ys)"
  shows "1 < length ys \<and> ys ! 1 = Min (set ys)"
proof -
  let ?m = "Min (set ys)"
  from order_trans [OF assms(2) length_filter_le] have len: "2 \<le> length ys" .
  then obtain a b rest where ys: "ys = a # b # rest"
    by (cases ys; cases "tl ys") auto
  from assms(1) ys have a: "a = ?m" using sorted_nth0_Min [of ys] by simp
  have b: "b = ?m"
  proof (rule ccontr)
    assume nb: "b \<noteq> ?m"
    from assms(2) have "2 \<le> length (filter (\<lambda>x. x = ?m) (a # b # rest))"
      using ys by simp
    with nb have "1 \<le> length (filter (\<lambda>x. x = ?m) rest)" by (simp split: if_splits)
    then have "filter (\<lambda>x. x = ?m) rest \<noteq> []" by auto
    then obtain z where z: "z \<in> set rest" "z = ?m" by (auto simp: filter_empty_conv)
    from assms(1) ys z have "b \<le> ?m" by auto
    moreover have "?m \<le> b" using ys by (intro Min_le) auto
    ultimately show False using nb by simp
  qed
  have "ys ! 1 = b" by (simp add: ys)
  then have "ys ! 1 = ?m" using b by (rule trans)
  moreover from len have "1 < length ys" by simp
  ultimately show ?thesis by (rule conjI [rotated])
qed

text \<open>
  C7, as the code has it. When exactly two rows are tied at the minimum fee, both are
  flagged as cheapest and \<open>nextBestFee\<close> is that same minimum fee: the second of the two
  tied fees is the element at index 1 of the ascending list, whatever other fees there
  are and also when there are only two firms.
\<close>

theorem next_best_when_two_tied:
  assumes "length (tiedAtMinimum rows) = 2"
  shows "(\<forall>row \<in> set (tiedAtMinimum rows). isCheapest (cheapestFee e rows) row)
    \<and> cheapestFee e rows = Some (Min (set (presentFees rows)))
    \<and> nextBestFee e rows = Some (Min (set (presentFees rows)))"
proof -
  let ?fs = "presentFees rows"
  let ?m = "Min (set ?fs)"
  from assms have ne: "?fs \<noteq> []" by (intro tiedAtMinimum_nonempty) auto
  then have cheapest: "cheapestFee e rows = Some ?m" by (simp add: cheapestFee_Min)
  from assms ne have "length (filter (\<lambda>x. x = ?m) ?fs) = 2"
    by (simp add: tiedAtMinimum_present length_tied)
  moreover have "length (filter (\<lambda>x. x = ?m) (sort ?fs)) = length (filter (\<lambda>x. x = ?m) ?fs)"
    by (rule length_filter_sort)
  ultimately have "2 \<le> length (filter (\<lambda>x. x = Min (set (sort ?fs))) (sort ?fs))"
    by simp
  with sorted_nth1_Min [of "sort ?fs"]
  have "1 < length (sort ?fs) \<and> sort ?fs ! 1 = ?m" by simp
  then have "nextBestFee e rows = Some ?m"
    by (simp add: nextBestFee_def at_or_null_def available_sort)
  moreover have "\<forall>row \<in> set (tiedAtMinimum rows). isCheapest (cheapestFee e rows) row"
    using ne by (simp add: tiedAtMinimum_present cheapest isCheapest_def)
  ultimately show ?thesis using cheapest by blast
qed


lemma presentFees_Tie2: "presentFees (toFirmRows catalogTie2 10000) = [100, 100]"
  by (simp add: toFirmRows_def catalogTie2_def presentFees_def List.map_filter_simps
      fee_rows_ABC fee_rows_tie)

lemma tied_Tie3:
  "tiedAtMinimum (toFirmRows catalogTie3 10000) = [toFirmRow 10000 firmA, toFirmRow 10000 firmT]"
  by (simp add: tiedAtMinimum_def presentFees_Tie3)
    (simp add: toFirmRows_def catalogTie3_def fee_rows_ABC fee_rows_tie)

lemma tied_Tie2:
  "tiedAtMinimum (toFirmRows catalogTie2 10000) = [toFirmRow 10000 firmA, toFirmRow 10000 firmT]"
  by (simp add: tiedAtMinimum_def presentFees_Tie2)
    (simp add: toFirmRows_def catalogTie2_def fee_rows_ABC fee_rows_tie)

theorem next_best_when_two_tied_witness:
  "length (tiedAtMinimum (toFirmRows catalogTie3 10000)) = 2
   \<and> isCheapest (cheapestFee AsksLaterEarlier (toFirmRows catalogTie3 10000)) (toFirmRow 10000 firmA)
   \<and> isCheapest (cheapestFee AsksLaterEarlier (toFirmRows catalogTie3 10000)) (toFirmRow 10000 firmT)
   \<and> cheapestFee AsksLaterEarlier (toFirmRows catalogTie3 10000) = Some 100
   \<and> nextBestFee AsksLaterEarlier (toFirmRows catalogTie3 10000) = Some 100"
proof -
  have two: "length (tiedAtMinimum (toFirmRows catalogTie3 10000)) = 2"
    by (simp add: tied_Tie3)
  note main = next_best_when_two_tied [OF two, of AsksLaterEarlier]
  from main have flagged: "\<forall>row \<in> set (tiedAtMinimum (toFirmRows catalogTie3 10000)).
      isCheapest (cheapestFee AsksLaterEarlier (toFirmRows catalogTie3 10000)) row"
    by (rule conjunct1)
  from flagged
  have "isCheapest (cheapestFee AsksLaterEarlier (toFirmRows catalogTie3 10000)) (toFirmRow 10000 firmA)"
    and "isCheapest (cheapestFee AsksLaterEarlier (toFirmRows catalogTie3 10000)) (toFirmRow 10000 firmT)"
    by (simp_all add: tied_Tie3)
  moreover from main
  have "cheapestFee AsksLaterEarlier (toFirmRows catalogTie3 10000) = Some 100"
    and "nextBestFee AsksLaterEarlier (toFirmRows catalogTie3 10000) = Some 100"
    by (simp_all add: presentFees_Tie3)
  ultimately show ?thesis using two by blast
qed

text \<open>
  C7, as the specification words it, fails. Firms B (150), A (100) and T (100): exactly
  two rows are tied at the minimum, the third fee in ascending order is 150, and
  \<open>nextBestFee\<close> is 100. Firms A (100) and T (100) alone: \<open>nextBestFee\<close> is 100, not absent.
\<close>

theorem next_best_is_not_third_fee:
  "length (tiedAtMinimum (toFirmRows catalogTie3 10000)) = 2
   \<and> thirdFee (toFirmRows catalogTie3 10000) = Some 150
   \<and> nextBestFee AsksLaterEarlier (toFirmRows catalogTie3 10000) = Some 100
   \<and> nextBestFee AsksEarlierLater (toFirmRows catalogTie3 10000) = Some 100
   \<and> nextBestFee AsksLaterEarlier (toFirmRows catalogTie3 10000)
       \<noteq> thirdFee (toFirmRows catalogTie3 10000)
   \<and> length catalogTie2 = 2
   \<and> length (tiedAtMinimum (toFirmRows catalogTie2 10000)) = 2
   \<and> thirdFee (toFirmRows catalogTie2 10000) = None
   \<and> nextBestFee AsksLaterEarlier (toFirmRows catalogTie2 10000) = Some 100
   \<and> nextBestFee AsksEarlierLater (toFirmRows catalogTie2 10000) = Some 100"
proof -
  have "length catalogTie2 = 2" by (simp add: catalogTie2_def)
  moreover have "thirdFee (toFirmRows catalogTie3 10000) = Some 150"
    and "thirdFee (toFirmRows catalogTie2 10000) = None"
    by (simp_all add: thirdFee_def at_or_null_def presentFees_Tie3 presentFees_Tie2)
  moreover have "nextBestFee AsksLaterEarlier (toFirmRows catalogTie3 10000) = Some 100"
    and "nextBestFee AsksEarlierLater (toFirmRows catalogTie3 10000) = Some 100"
    and "nextBestFee AsksLaterEarlier (toFirmRows catalogTie2 10000) = Some 100"
    and "nextBestFee AsksEarlierLater (toFirmRows catalogTie2 10000) = Some 100"
    by (simp_all add: nextBestFee_nth presentFees_Tie3 presentFees_Tie2)
  ultimately show ?thesis by (simp add: tied_Tie3 tied_Tie2)
qed

text \<open>
  C8. For every row flagged as cheapest, the fee of the row is present and the note is
  omitted exactly when \<open>nextBestFee\<close> is absent; otherwise it reads
  \<open>Save $\<close>, the amount \<open>max(0, nextBestFee - fee)\<close> at zero decimals, and
  \<open>vs. next option\<close>.
\<close>

theorem savings_note:
  assumes "isCheapest cheapest row"
  shows "\<exists>x. fee row = Some x
    \<and> savingsNote toFixed0 cheapest nextBest row
      = (case nextBest of None \<Rightarrow> None
         | Some next_fee \<Rightarrow>
             Some (''Save $'' @ toFixed0 (max 0 (next_fee - x)) @ '' vs. next option''))"
proof -
  from assms obtain x where x: "fee row = Some x"
    by (auto simp: isCheapest_def)
  with assms have "savingsNote toFixed0 cheapest nextBest row
      = (case nextBest of None \<Rightarrow> None
         | Some next_fee \<Rightarrow>
             Some (''Save $'' @ toFixed0 (max 0 (next_fee - x)) @ '' vs. next option''))"
    by (simp add: savingsNote_def split: option.split)
  with x show ?thesis by blast
qed

lemma cheapest_ABC: "cheapestFee e (toFirmRows catalogABC 10000) = Some 100"
  by (simp add: cheapestFee_Min presentFees_ABC)

lemma nextBest_ABC: "nextBestFee e (toFirmRows catalogABC 10000) = Some 150"
  by (simp add: nextBestFee_nth presentFees_ABC)

lemma nextBest_ABC_5000: "nextBestFee e (toFirmRows catalogABC 5000) = None"
  by (simp add: nextBestFee_nth toFirmRows_def catalogABC_def presentFees_def
      List.map_filter_simps toFirmRow_def firmA_def firmB_def firmC_def firmOf_def tier_def)

lemma cheapest_ABC_5000: "cheapestFee e (toFirmRows catalogABC 5000) = Some 60"
  by (simp add: cheapestFee_Min toFirmRows_def catalogABC_def presentFees_def
      List.map_filter_simps toFirmRow_def firmA_def firmB_def firmC_def firmOf_def tier_def)

lemma fee_rowA_5000: "fee (toFirmRow 5000 firmA) = Some 60"
  by (simp add: toFirmRow_def firmA_def firmOf_def tier_def)

theorem savings_note_witness:
  "isCheapest (cheapestFee AsksLaterEarlier (toFirmRows catalogABC 10000)) (toFirmRow 10000 firmA)
   \<and> savingsNote plainNumber (cheapestFee AsksLaterEarlier (toFirmRows catalogABC 10000))
        (nextBestFee AsksLaterEarlier (toFirmRows catalogABC 10000)) (toFirmRow 10000 firmA)
      = Some ''Save $50 vs. next option''
   \<and> isCheapest (cheapestFee AsksLaterEarlier (toFirmRows catalogABC 5000)) (toFirmRow 5000 firmA)
   \<and> savingsNote plainNumber (cheapestFee AsksLaterEarlier (toFirmRows catalogABC 5000))
        (nextBestFee AsksLaterEarlier (toFirmRows catalogABC 5000)) (toFirmRow 5000 firmA)
      = None"
proof -
  have a: "isCheapest (cheapestFee AsksLaterEarlier (toFirmRows catalogABC 10000)) (toFirmRow 10000 firmA)"
    by (simp add: isCheapest_def cheapest_ABC fee_rows_ABC)
  have b: "isCheapest (cheapestFee AsksLaterEarlier (toFirmRows catalogABC 5000)) (toFirmRow 5000 firmA)"
    by (simp add: isCheapest_def cheapest_ABC_5000 fee_rowA_5000)
  from savings_note [OF a, of plainNumber "nextBestFee AsksLaterEarlier (toFirmRows catalogABC 10000)"]
  have "savingsNote plainNumber (cheapestFee AsksLaterEarlier (toFirmRows catalogABC 10000))
        (nextBestFee AsksLaterEarlier (toFirmRows catalogABC 10000)) (toFirmRow 10000 firmA)
      = Some ''Save $50 vs. next option''"
    by (simp add: nextBest_ABC fee_rows_ABC plainNumber_def)
  moreover
  from savings_note [OF b, of plainNumber "nextBestFee AsksLaterEarlier (toFirmRows catalogABC 5000)"]
  have "savingsNote plainNumber (cheapestFee AsksLaterEarlier (toFirmRows catalogABC 5000))
        (nextBestFee AsksLaterEarlier (toFirmRows catalogABC 5000)) (toFirmRow 5000 firmA)
      = None"
    by (simp add: nextBest_ABC_5000)
  ultimately show ?thesis using a b by simp
qed

section \<open>The selected size\<close>

text \<open>
  C9, as the code has it. The selected size starts at the constant 10000, whatever the
  catalog and the supported sizes are, and a selection replaces it. It is the smallest
  supported size exactly when 10000 is supported and no supported size is below it.
\<close>

theorem initial_size_is_constant:
  "selectedSize initialState = 10000
   \<and> selectedSize (setSelectedSize sz st) = sz
   \<and> (sizes \<noteq> [] \<longrightarrow>
        (selectedSize initialState = smallestSize sizes)
        = (10000 \<in> set sizes \<and> (\<forall>other \<in> set sizes. 10000 \<le> other)))"
proof -
  have "(Min (set sizes) = 10000) = (10000 \<in> set sizes \<and> (\<forall>other \<in> set sizes. 10000 \<le> other))"
    if "sizes \<noteq> []"
  proof
    assume m: "Min (set sizes) = 10000"
    from that have "Min (set sizes) \<in> set sizes" by (intro Min_in) auto
    moreover have "\<forall>other \<in> set sizes. Min (set sizes) \<le> other" by auto
    ultimately show "10000 \<in> set sizes \<and> (\<forall>other \<in> set sizes. 10000 \<le> other)"
      unfolding m by blast
  next
    assume "10000 \<in> set sizes \<and> (\<forall>other \<in> set sizes. 10000 \<le> other)"
    then show "Min (set sizes) = 10000" by (intro Min_eqI) auto
  qed
  then show ?thesis
    by (auto simp: initialState_def setSelectedSize_def smallestSize_def)
qed

theorem initial_size_is_constant_witness:
  "[10000, 25000] \<noteq> ([] :: real list)
   \<and> selectedSize initialState = smallestSize [10000, 25000]
   \<and> sizesAE \<noteq> []
   \<and> selectedSize initialState \<noteq> smallestSize sizesAE
   \<and> selectedSize (setSelectedSize 25000 initialState) = 25000"
proof -
  have ne: "[10000, 25000] \<noteq> ([] :: real list)" and ne': "sizesAE \<noteq> []"
    by (simp_all add: sizesAE_def)
  note main = initial_size_is_constant [of 25000 initialState]
  from main [of "[10000, 25000]", THEN conjunct2, THEN conjunct2, rule_format, OF ne]
  have "selectedSize initialState = smallestSize [10000, 25000]" by simp
  moreover from main [of sizesAE, THEN conjunct2, THEN conjunct2, rule_format, OF ne']
  have "selectedSize initialState \<noteq> smallestSize sizesAE" by (simp add: sizesAE_def)
  moreover from main [of "[]"]
  have "selectedSize (setSelectedSize 25000 initialState) = 25000" by blast
  ultimately show ?thesis using ne ne' by blast
qed

text \<open>
  C9, as the specification words it, fails. Firms A (tiers at 5000 and 10000) and E
  (tiers at 5000 and 25000), supported sizes 5000, 10000 and 25000: the smallest size and
  the only most common tier size is 5000, and the selected size starts at 10000.
\<close>

theorem initial_size_not_from_catalog:
  "selectedSize initialState = 10000
   \<and> smallestSize sizesAE = 5000
   \<and> tierCount catalogAE 5000 = 2
   \<and> tierCount catalogAE 10000 = 1
   \<and> mostCommonSize catalogAE sizesAE 5000
   \<and> \<not> mostCommonSize catalogAE sizesAE (selectedSize initialState)
   \<and> selectedSize initialState \<noteq> smallestSize sizesAE"
proof -
  have counts: "tierCount catalogAE 5000 = 2" "tierCount catalogAE 10000 = 1"
    "tierCount catalogAE 25000 = 1"
    by (simp_all add: tierCount_def catalogAE_def firmA_def firmE_def firmOf_def tier_def)
  have "smallestSize sizesAE = 5000" by (simp add: smallestSize_def sizesAE_def)
  moreover have "mostCommonSize catalogAE sizesAE 5000"
    by (simp add: mostCommonSize_def sizesAE_def counts)
  moreover have "\<not> mostCommonSize catalogAE sizesAE (selectedSize initialState)"
    by (simp add: mostCommonSize_def sizesAE_def counts initialState_def)
  ultimately show ?thesis by (simp add: counts initialState_def)
qed

section \<open>A fee of zero\<close>

lemma toFirmRow_fee_of_tier:
  assumes "fee (toFirmRow sz f) = Some x"
  shows "\<exists>t \<in> set (accounts f). acc_fee t = x"
proof (cases "find (\<lambda>item. acc_size item = sz) (accounts f)")
  case None
  then have "fee (toFirmRow sz f) = None" by (rule toFirmRow_not_found)
  with assms show ?thesis by simp
next
  case (Some t)
  from toFirmRow_found(1) [OF Some] assms have "acc_fee t = x" by simp
  moreover from find_size_Some [OF Some] have "t \<in> set (accounts f)" by (rule conjunct1)
  ultimately show ?thesis by blast
qed

lemma presentFees_from_row:
  "x \<in> set (presentFees rows) \<Longrightarrow> \<exists>row \<in> set rows. fee row = Some x"
  by (induction rows) (auto simp: presentFees_def List.map_filter_simps split: option.splits)

lemma presentFees_of_tiers:
  assumes "x \<in> set (presentFees (toFirmRows propFirms sz))"
  shows "\<exists>f \<in> set propFirms. \<exists>t \<in> set (accounts f). acc_fee t = x"
proof -
  from presentFees_from_row [OF assms]
  obtain row where "row \<in> set (toFirmRows propFirms sz)" and x: "fee row = Some x"
    by blast
  then obtain f where f: "f \<in> set propFirms" and "row = toFirmRow sz f"
    by (auto simp: toFirmRows_def)
  with x have "fee (toFirmRow sz f) = Some x" by simp
  then have "\<exists>t \<in> set (accounts f). acc_fee t = x" by (rule toFirmRow_fee_of_tier)
  with f show ?thesis by blast
qed

lemma emDash_not_dollar: "emDash \<noteq> ''$0''"
  by (simp add: emDash_def)

text \<open>
  C10. Let every fee of the catalog be non-negative, and let the matched tier of a firm
  have the fee 0. Then the fee of the row of that firm is present, \<open>cheapestFee\<close> is 0
  and not absent, the row is flagged as cheapest and, where the locale writes zero as
  \<open>0\<close>, its fee is rendered as \<open>$0\<close>. A row with an absent fee is rendered with the
  dash, which is not \<open>$0\<close>, and is not flagged.
\<close>

theorem zero_fee_is_present:
  assumes nonneg: "\<forall>g \<in> set propFirms. \<forall>t \<in> set (accounts g). 0 \<le> acc_fee t"
    and f: "f \<in> set propFirms"
    and found: "find (\<lambda>item. acc_size item = sz) (accounts f) = Some account"
    and zero: "acc_fee account = 0"
    and zero_text: "toLocaleString 0 = ''0''"
  shows "fee (toFirmRow sz f) = Some 0
    \<and> cheapestFee e (toFirmRows propFirms sz) = Some 0
    \<and> isCheapest (cheapestFee e (toFirmRows propFirms sz)) (toFirmRow sz f)
    \<and> formatCurrency toLocaleString (fee (toFirmRow sz f)) = ''$0''
    \<and> (\<forall>row \<in> set (toFirmRows propFirms sz). fee row = None \<longrightarrow>
          formatCurrency toLocaleString (fee row) = emDash
          \<and> \<not> isCheapest (cheapestFee e (toFirmRows propFirms sz)) row)
    \<and> emDash \<noteq> ''$0''"
proof -
  let ?rows = "toFirmRows propFirms sz"
  from toFirmRow_found(1) [OF found] zero have fee0: "fee (toFirmRow sz f) = Some 0"
    by simp
  from f have "toFirmRow sz f \<in> set ?rows" by (simp add: toFirmRows_def)
  then have in_fees: "0 \<in> set (presentFees ?rows)" using fee0 by (rule fee_in_presentFees)
  have "0 \<le> x" if "x \<in> set (presentFees ?rows)" for x
    using presentFees_of_tiers [OF that] nonneg by blast
  with in_fees have "Min (set (presentFees ?rows)) = 0"
    by (intro Min_eqI) auto
  moreover from in_fees have "presentFees ?rows \<noteq> []" by auto
  ultimately have cheapest: "cheapestFee e ?rows = Some 0"
    by (simp add: cheapestFee_Min)
  have flagged: "isCheapest (cheapestFee e ?rows) (toFirmRow sz f)"
    by (simp add: isCheapest_def cheapest fee0)
  have shown: "formatCurrency toLocaleString (fee (toFirmRow sz f)) = ''$0''"
    by (simp add: formatCurrency_def fee0 zero_text)
  have absent: "\<forall>row \<in> set ?rows. fee row = None \<longrightarrow>
          formatCurrency toLocaleString (fee row) = emDash
          \<and> \<not> isCheapest (cheapestFee e ?rows) row"
    by (simp add: formatCurrency_def isCheapest_def cheapest)
  from fee0 cheapest flagged shown absent emDash_not_dollar show ?thesis by blast
qed

lemma find_Z: "find (\<lambda>item. acc_size item = 10000) (accounts firmZ) = Some (tier 10000 0)"
  by (simp add: firmZ_def firmOf_def tier_def)

theorem zero_fee_is_present_witness:
  "list_all (\<lambda>g. list_all (\<lambda>t. 0 \<le> acc_fee t) (accounts g)) catalogZ
   \<and> firmZ \<in> set catalogZ
   \<and> find (\<lambda>item. acc_size item = 10000) (accounts firmZ) = Some (tier 10000 0)
   \<and> acc_fee (tier 10000 0) = 0
   \<and> plainNumber 0 = ''0''
   \<and> fee (toFirmRow 10000 firmZ) = Some 0
   \<and> cheapestFee AsksLaterEarlier (toFirmRows catalogZ 10000) = Some 0
   \<and> isCheapest (cheapestFee AsksLaterEarlier (toFirmRows catalogZ 10000)) (toFirmRow 10000 firmZ)
   \<and> formatCurrency plainNumber (fee (toFirmRow 10000 firmZ)) = ''$0''
   \<and> toFirmRow 10000 firmC \<in> set (toFirmRows catalogZ 10000)
   \<and> formatCurrency plainNumber (fee (toFirmRow 10000 firmC)) = emDash
   \<and> \<not> isCheapest (cheapestFee AsksLaterEarlier (toFirmRows catalogZ 10000)) (toFirmRow 10000 firmC)"
proof -
  have nonneg: "\<forall>g \<in> set catalogZ. \<forall>t \<in> set (accounts g). 0 \<le> acc_fee t"
    by (simp add: catalogZ_def firmB_def firmZ_def firmC_def firmOf_def tier_def)
  have z: "firmZ \<in> set catalogZ" and c: "toFirmRow 10000 firmC \<in> set (toFirmRows catalogZ 10000)"
    by (simp_all add: catalogZ_def toFirmRows_def)
  have zero: "acc_fee (tier 10000 0) = 0" by (simp add: tier_def)
  have text0: "plainNumber 0 = ''0''" by (simp add: plainNumber_def)
  note main = zero_fee_is_present [where toLocaleString = plainNumber and e = AsksLaterEarlier,
      OF nonneg z find_Z zero text0]
  from main have absent: "\<forall>row \<in> set (toFirmRows catalogZ 10000). fee row = None \<longrightarrow>
          formatCurrency plainNumber (fee row) = emDash
          \<and> \<not> isCheapest (cheapestFee AsksLaterEarlier (toFirmRows catalogZ 10000)) row"
    by blast
  from absent [rule_format, OF c] fee_rows_ABC(3)
  have "formatCurrency plainNumber (fee (toFirmRow 10000 firmC)) = emDash
    \<and> \<not> isCheapest (cheapestFee AsksLaterEarlier (toFirmRows catalogZ 10000)) (toFirmRow 10000 firmC)"
    by blast
  moreover from nonneg
  have "list_all (\<lambda>g. list_all (\<lambda>t. 0 \<le> acc_fee t) (accounts g)) catalogZ"
    by (simp add: list_all_iff)
  ultimately show ?thesis using main z c zero text0 find_Z by blast
qed

section \<open>Rounding to binary64\<close>

lemma pow2_powr: "pow2 k = 2 powr (of_int k)"
proof (cases "0 \<le> k")
  case True
  then have "pow2 k = 2 ^ nat k" by (simp add: pow2_def)
  also have "\<dots> = 2 powr (real (nat k))" by (simp add: powr_realpow)
  finally show ?thesis using True by simp
next
  case False
  then have "pow2 k = 1 / 2 ^ nat (- k)" by (simp add: pow2_def)
  also have "\<dots> = 1 / 2 powr (real (nat (- k)))" by (simp add: powr_realpow)
  also have "\<dots> = 2 powr (- real (nat (- k)))" by (simp add: powr_minus divide_inverse)
  finally show ?thesis using False by simp
qed

lemma pow2_pos: "0 < pow2 k"
  by (simp add: pow2_powr)

lemma pow2_add: "pow2 (j + k) = pow2 j * pow2 k"
  by (simp add: pow2_powr powr_add)

lemma pow2_mono: "j \<le> k \<Longrightarrow> pow2 j \<le> pow2 k"
  by (simp add: pow2_powr)

lemma pow2_less_cancel: "pow2 j < pow2 k \<Longrightarrow> j < k"
  by (simp add: pow2_powr)

lemma exponent2_bounds:
  assumes "0 < a"
  shows "pow2 (exponent2 a) \<le> a \<and> a < pow2 (exponent2 a + 1)"
proof (cases "1 \<le> a")
  case True
  let ?m = "\<lfloor>a\<rfloor>"
  from True have m: "0 < ?m" by simp
  from bitlen_bounds [OF m]
  have lo: "2 ^ nat (bitlen ?m - 1) \<le> ?m" and hi: "?m < 2 ^ nat (bitlen ?m)" by simp_all
  from m have bl: "1 \<le> bitlen ?m" by (simp add: bitlen_alt_def)
  from True have e: "exponent2 a = bitlen ?m - 1" by (simp add: exponent2_def)
  from lo have "real_of_int (2 ^ nat (bitlen ?m - 1)) \<le> real_of_int ?m" by (rule of_int_le_iff [THEN iffD2])
  also have "\<dots> \<le> a" by simp
  finally have first: "pow2 (exponent2 a) \<le> a" using bl by (simp add: e pow2_def)
  from hi have "?m + 1 \<le> 2 ^ nat (bitlen ?m)" by simp
  then have "real_of_int (?m + 1) \<le> real_of_int (2 ^ nat (bitlen ?m))" by (rule of_int_le_iff [THEN iffD2])
  then have "real_of_int ?m + 1 \<le> 2 ^ nat (bitlen ?m)" by simp
  moreover have "a < real_of_int ?m + 1" by linarith
  ultimately have "a < 2 ^ nat (bitlen ?m)" by linarith
  then have "a < pow2 (exponent2 a + 1)" using bl by (simp add: e pow2_def)
  with first show ?thesis by blast
next
  case False
  let ?y = "1 / a"
  let ?m = "\<lceil>?y\<rceil> - 1"
  from False assms have y: "1 < ?y" by simp
  then have m: "0 < ?m" by simp
  from bitlen_bounds [OF m]
  have lo: "2 ^ nat (bitlen ?m - 1) \<le> ?m" and hi: "?m < 2 ^ nat (bitlen ?m)" by simp_all
  from m have bl: "1 \<le> bitlen ?m" by (simp add: bitlen_alt_def)
  from False have e: "exponent2 a = - bitlen ?m" by (simp add: exponent2_def)
  from hi have "?m + 1 \<le> 2 ^ nat (bitlen ?m)" by simp
  then have "real_of_int (?m + 1) \<le> real_of_int (2 ^ nat (bitlen ?m))" by (rule of_int_le_iff [THEN iffD2])
  then have "real_of_int \<lceil>?y\<rceil> \<le> 2 ^ nat (bitlen ?m)" by simp
  moreover have "?y \<le> real_of_int \<lceil>?y\<rceil>" by (rule le_of_int_ceiling)
  ultimately have "?y \<le> 2 ^ nat (bitlen ?m)" by linarith
  with assms have "1 / 2 ^ nat (bitlen ?m) \<le> a"
    by (simp add: field_simps)
  then have first: "pow2 (exponent2 a) \<le> a" using bl by (simp add: e pow2_def)
  from lo have "real_of_int (2 ^ nat (bitlen ?m - 1)) \<le> real_of_int ?m" by (rule of_int_le_iff [THEN iffD2])
  then have "2 ^ nat (bitlen ?m - 1) \<le> real_of_int \<lceil>?y\<rceil> - 1" by simp
  moreover have "real_of_int \<lceil>?y\<rceil> - 1 < ?y" by linarith
  ultimately have "2 ^ nat (bitlen ?m - 1) < ?y" by linarith
  with assms have lt: "a < 1 / 2 ^ nat (bitlen ?m - 1)"
    by (simp add: field_simps)
  have "pow2 (1 - bitlen ?m) = 1 / 2 ^ nat (bitlen ?m - 1)"
    using bl by (cases "bitlen ?m = 1") (simp_all add: pow2_def)
  with lt have "a < pow2 (exponent2 a + 1)" by (simp add: e)
  with first show ?thesis by blast
qed

lemma roundHalfEven_error: "\<bar>of_int (roundHalfEven t) - t\<bar> \<le> 1 / 2"
  unfolding roundHalfEven_def Let_def by (auto simp: abs_le_iff)

lemma round64_zero: "round64 0 = Finite 0"
  by (simp add: round64_def)

lemma abs_signed: "x \<noteq> 0 \<Longrightarrow> \<bar>(if 0 < x then R else - R) - x\<bar> = \<bar>R - \<bar>x\<bar>\<bar>"
  for x R :: real
  by (cases "0 < x") (simp_all add: abs_if)

lemma abs_near: "\<bar>r - t\<bar> \<le> d \<Longrightarrow> \<bar>r\<bar> \<le> \<bar>t\<bar> + d \<and> \<bar>t\<bar> - d \<le> \<bar>r\<bar>"
  for r t d :: real
  by linarith

lemma round64_error:
  assumes lo: "pow2 (- 1022) \<le> \<bar>x\<bar>" and hi: "\<bar>x\<bar> \<le> pow2 1023"
  shows "\<exists>r. round64 x = Finite r \<and> \<bar>r - x\<bar> \<le> \<bar>x\<bar> * pow2 (- 53)"
proof -
  let ?a = "\<bar>x\<bar>"
  let ?e = "exponent2 ?a"
  let ?q = "pow2 (?e - 52)"
  let ?n = "roundHalfEven (?a / ?q)"
  let ?r = "of_int ?n * ?q"
  from lo pow2_pos [of "- 1022"] have a: "0 < ?a" by linarith
  then have x: "x \<noteq> 0" by simp
  from exponent2_bounds [OF a] have e_lo: "pow2 ?e \<le> ?a" and e_hi: "?a < pow2 (?e + 1)"
    by simp_all
  from lo e_hi have "pow2 (- 1022) < pow2 (?e + 1)" by linarith
  then have "- 1022 < ?e + 1" by (rule pow2_less_cancel)
  then have e: "max ?e (- 1022) = ?e" by simp
  have q: "0 < ?q" by (rule pow2_pos)
  have "\<bar>of_int ?n - ?a / ?q\<bar> \<le> 1 / 2" by (rule roundHalfEven_error)
  then have "\<bar>of_int ?n - ?a / ?q\<bar> * ?q \<le> 1 / 2 * ?q"
    using q by (intro mult_right_mono) simp_all
  moreover have "\<bar>of_int ?n - ?a / ?q\<bar> * ?q = \<bar>?r - ?a\<bar>"
  proof -
    have "\<bar>of_int ?n - ?a / ?q\<bar> * ?q = \<bar>(of_int ?n - ?a / ?q) * ?q\<bar>"
      using q by (simp add: abs_mult)
    also have "(of_int ?n - ?a / ?q) * ?q = ?r - ?a"
      using q by (simp add: field_simps)
    finally show ?thesis .
  qed
  moreover have "1 / 2 * ?q = pow2 ?e * pow2 (- 53)"
  proof -
    have "?q = pow2 (?e + (- 53) + 1)" by simp
    also have "\<dots> = pow2 ?e * pow2 (- 53) * pow2 1" by (simp only: pow2_add)
    also have "pow2 1 = 2" by (simp add: pow2_def)
    finally show ?thesis by simp
  qed
  ultimately have "\<bar>?r - ?a\<bar> \<le> pow2 ?e * pow2 (- 53)" by simp
  also have "\<dots> \<le> ?a * pow2 (- 53)"
    using e_lo pow2_pos [of "- 53"] by (intro mult_right_mono) simp_all
  finally have err: "\<bar>?r - ?a\<bar> \<le> ?a * pow2 (- 53)" .
  have small: "pow2 (- 53) \<le> 1 / 2" by (simp add: pow2_def)
  have "?r \<le> ?a + ?a * pow2 (- 53)" using err by linarith
  also have "\<dots> \<le> ?a + ?a * (1 / 2)"
    using a small by (intro add_left_mono mult_left_mono) simp_all
  also have "\<dots> < 2 * pow2 1023" using hi a by linarith
  also have "2 * pow2 1023 = pow2 1024" by (simp add: pow2_def)
  finally have fin: "\<not> pow2 1024 \<le> ?r" by simp
  have val: "round64 x = Finite (if 0 < x then ?r else - ?r)"
    using x fin e by (simp add: round64_def Let_def)
  have "\<bar>(if 0 < x then ?r else - ?r) - x\<bar> = \<bar>?r - ?a\<bar>"
    using x by (rule abs_signed)
  with err have "\<bar>(if 0 < x then ?r else - ?r) - x\<bar> \<le> ?a * pow2 (- 53)" by simp
  with val show ?thesis by blast
qed

text \<open>Two roundings in a row: the quotient, then its product with 10000.\<close>

lemma divide_times_error:
  assumes b: "b \<noteq> 0"
    and range: "a = 0 \<or> pow2 (- 1022) \<le> \<bar>a / b\<bar> \<and> \<bar>a / b\<bar> \<le> pow2 1000"
  shows "\<exists>v. js_times (js_divide a b) 10000 = Finite v
    \<and> \<bar>v - a / b * 10000\<bar> \<le> \<bar>a / b * 10000\<bar> * pow2 (- 51)"
proof (cases "a = 0")
  case True
  with b show ?thesis by (simp add: js_divide_def js_times_def round64_zero)
next
  case False
  define t where "t = a / b"
  define u where "u = pow2 (- 53)"
  define T where "T = \<bar>t\<bar>"
  from False range have lo: "pow2 (- 1022) \<le> T" and hi: "T \<le> pow2 1000"
    by (simp_all add: t_def T_def)
  have u: "0 < u" "u \<le> 1 / 2" by (simp_all add: u_def pow2_def)
  have T_pos: "0 < T" using lo pow2_pos [of "- 1022"] by linarith
  have "pow2 1000 \<le> pow2 1023" by (rule pow2_mono) simp
  with hi have "T \<le> pow2 1023" by linarith
  with lo have "\<exists>r. round64 t = Finite r \<and> \<bar>r - t\<bar> \<le> \<bar>t\<bar> * pow2 (- 53)"
    unfolding T_def by (rule round64_error)
  then obtain r where r: "round64 t = Finite r" and r_err: "\<bar>r - t\<bar> \<le> T * u"
    by (auto simp: u_def T_def)
  from b r have quotient: "js_divide a b = Finite r" by (simp add: js_divide_def t_def)
  have Tu: "T * u \<le> T * (1 / 2)"
    using u T_pos by (intro mult_left_mono) simp_all
  from abs_near [OF r_err] Tu have r_hi: "\<bar>r\<bar> \<le> 2 * T" and r_lo: "T * (1 / 2) \<le> \<bar>r\<bar>"
    unfolding T_def by linarith+
  have rc_abs: "\<bar>r * 10000\<bar> = \<bar>r\<bar> * 10000" by (simp add: abs_mult)
  have lo2: "pow2 (- 1022) \<le> \<bar>r * 10000\<bar>"
    unfolding rc_abs using r_lo lo by linarith
  have "pow2 1000 * 20000 \<le> pow2 1000 * pow2 23"
    using pow2_pos [of 1000] by (intro mult_left_mono) (simp_all add: pow2_def)
  also have "\<dots> = pow2 1023" by (simp add: pow2_add [symmetric])
  finally have "pow2 1000 * 20000 \<le> pow2 1023" .
  with r_hi hi have hi2: "\<bar>r * 10000\<bar> \<le> pow2 1023"
    unfolding rc_abs by linarith
  from round64_error [OF lo2 hi2] obtain v where v: "round64 (r * 10000) = Finite v"
    and v_err: "\<bar>v - r * 10000\<bar> \<le> \<bar>r\<bar> * 10000 * u"
    unfolding rc_abs by (auto simp: u_def)
  from quotient v have product: "js_times (js_divide a b) 10000 = Finite v"
    by (simp add: js_times_def)
  define K where "K = T * 10000 * u"
  have "\<bar>r\<bar> * (10000 * u) \<le> (2 * T) * (10000 * u)"
    using r_hi u by (intro mult_right_mono) simp_all
  moreover have "\<bar>r\<bar> * 10000 * u = \<bar>r\<bar> * (10000 * u)" by simp
  moreover have "2 * K = (2 * T) * (10000 * u)" by (simp add: K_def)
  ultimately have first: "\<bar>v - r * 10000\<bar> \<le> 2 * K" using v_err by linarith
  have "r * 10000 - t * 10000 = (r - t) * 10000" by (simp only: left_diff_distrib)
  then have "\<bar>r * 10000 - t * 10000\<bar> = \<bar>r - t\<bar> * 10000" by (simp only: abs_mult abs_numeral)
  moreover from r_err have "\<bar>r - t\<bar> * 10000 \<le> T * u * 10000" by simp
  moreover have "T * u * 10000 = K" by (simp add: K_def)
  ultimately have second: "\<bar>r * 10000 - t * 10000\<bar> \<le> K" by linarith
  have K: "0 \<le> K" using T_pos u by (simp add: K_def)
  from first second K have "\<bar>v - t * 10000\<bar> \<le> 4 * K" by linarith
  also have "4 * K = \<bar>t * 10000\<bar> * pow2 (- 51)"
  proof -
    have "pow2 (- 51) = 4 * pow2 (- 53)" by (simp add: pow2_def)
    then show ?thesis by (simp add: K_def T_def u_def abs_mult)
  qed
  finally have "\<bar>v - a / b * 10000\<bar> \<le> \<bar>a / b * 10000\<bar> * pow2 (- 51)"
    by (simp add: t_def)
  with product show ?thesis by blast
qed

section \<open>The fee per 10k\<close>

text \<open>
  C6. For every selected size and every row of the projection whose fee is present, the
  fee is that of the matched tier (the first tier of the firm with the selected size)
  and the fee per 10k is what the engine computes for \<open>fee / S * 10000\<close>: the quotient
  of the fee by the selected size in binary64, times 10000 in binary64. When the size
  is not zero and the exact quotient is zero or of a magnitude from \<open>pow2 (- 1022)\<close> to
  \<open>pow2 1000\<close>, that number is finite and differs from the exact \<open>fee / S * 10000\<close> by
  at most the fraction \<open>pow2 (- 51)\<close> of it.
\<close>

theorem feePer10k_formula:
  "\<forall>row \<in> set (toFirmRows propFirms sz). \<forall>x. fee row = Some x \<longrightarrow>
     feePer10k row = Some (js_times (js_divide x sz) 10000)
     \<and> (\<exists>account. find (\<lambda>item. acc_size item = sz) (accounts (firm row)) = Some account
          \<and> acc_fee account = x)
     \<and> (sz \<noteq> 0 \<and> (x = 0 \<or> pow2 (- 1022) \<le> \<bar>x / sz\<bar> \<and> \<bar>x / sz\<bar> \<le> pow2 1000) \<longrightarrow>
          (\<exists>v. feePer10k row = Some (Finite v)
             \<and> \<bar>v - x / sz * 10000\<bar> \<le> \<bar>x / sz * 10000\<bar> * pow2 (- 51)))"
proof (intro ballI allI impI)
  fix row x
  assume "row \<in> set (toFirmRows propFirms sz)" and x: "fee row = Some x"
  then obtain f where row: "row = toFirmRow sz f"
    by (auto simp: toFirmRows_def)
  obtain account where found: "find (\<lambda>item. acc_size item = sz) (accounts f) = Some account"
  proof (cases "find (\<lambda>item. acc_size item = sz) (accounts f)")
    case None
    then have "fee row = None" unfolding row by (rule toFirmRow_not_found)
    with x show ?thesis by simp
  next
    case (Some account)
    then show ?thesis by (rule that)
  qed
  from toFirmRow_found [OF found] x have fee_x: "acc_fee account = x"
    and per10k: "feePer10k row = Some (js_times (js_divide x sz) 10000)"
    unfolding row by simp_all
  from found fee_x
  have tier: "\<exists>account. find (\<lambda>item. acc_size item = sz) (accounts (firm row)) = Some account
          \<and> acc_fee account = x"
    unfolding row firm_toFirmRow by blast
  have "\<exists>v. feePer10k row = Some (Finite v)
             \<and> \<bar>v - x / sz * 10000\<bar> \<le> \<bar>x / sz * 10000\<bar> * pow2 (- 51)"
    if "sz \<noteq> 0 \<and> (x = 0 \<or> pow2 (- 1022) \<le> \<bar>x / sz\<bar> \<and> \<bar>x / sz\<bar> \<le> pow2 1000)"
  proof -
    from that have "\<exists>v. js_times (js_divide x sz) 10000 = Finite v
        \<and> \<bar>v - x / sz * 10000\<bar> \<le> \<bar>x / sz * 10000\<bar> * pow2 (- 51)"
      by (intro divide_times_error) blast+
    with per10k show ?thesis by simp
  qed
  with per10k tier
  show "feePer10k row = Some (js_times (js_divide x sz) 10000)
     \<and> (\<exists>account. find (\<lambda>item. acc_size item = sz) (accounts (firm row)) = Some account
          \<and> acc_fee account = x)
     \<and> (sz \<noteq> 0 \<and> (x = 0 \<or> pow2 (- 1022) \<le> \<bar>x / sz\<bar> \<and> \<bar>x / sz\<bar> \<le> pow2 1000) \<longrightarrow>
          (\<exists>v. feePer10k row = Some (Finite v)
             \<and> \<bar>v - x / sz * 10000\<bar> \<le> \<bar>x / sz * 10000\<bar> * pow2 (- 51)))"
    by blast
qed

lemma bitlen_values:
  "bitlen 101 = 7" "bitlen 99 = 7" "bitlen 100 = 7" "bitlen 83 = 7" "bitlen 120 = 7"
  by code_simp+

lemma divide_99: "js_divide 99 10000 = Finite (5706961447803893 / 576460752303423488)"
  by (simp add: js_divide_def round64_def exponent2_def bitlen_values pow2_def
      roundHalfEven_def Let_def)

lemma per10k_99:
  "js_times (js_divide 99 10000) 10000 = Finite (6966505673588737 / 70368744177664)"
  by (simp add: divide_99 js_times_def round64_def exponent2_def bitlen_values pow2_def
      roundHalfEven_def Let_def)

lemma per10k_100: "js_times (js_divide 100 10000) 10000 = Finite 100"
  by (simp add: js_divide_def js_times_def round64_def exponent2_def bitlen_values pow2_def
      roundHalfEven_def Let_def)

lemma per10k_zero_size:
  "js_times (js_divide 50 0) 10000 = PosInfinity" "js_times (js_divide 0 0) 10000 = NaN"
  by (simp_all add: js_divide_def js_times_def)

lemma fee_rows_N:
  "fee (toFirmRow 10000 firmN) = Some 99" "fee (toFirmRow 0 firmN) = Some 50"
  by (simp_all add: toFirmRow_def firmN_def firmOf_def tier_def)

theorem feePer10k_formula_witness:
  "toFirmRow 10000 firmN \<in> set (toFirmRows catalogN 10000)
   \<and> fee (toFirmRow 10000 firmN) = Some 99
   \<and> feePer10k (toFirmRow 10000 firmN) = Some (Finite (6966505673588737 / 70368744177664))
   \<and> (10000::real) \<noteq> 0 \<and> pow2 (- 1022) \<le> \<bar>99 / 10000\<bar> \<and> \<bar>99 / 10000 :: real\<bar> \<le> pow2 1000
   \<and> \<bar>6966505673588737 / 70368744177664 - 99 / 10000 * 10000\<bar>
       \<le> \<bar>99 / 10000 * 10000\<bar> * pow2 (- 51)
   \<and> toFirmRow 10000 firmA \<in> set (toFirmRows catalogN 10000)
   \<and> fee (toFirmRow 10000 firmA) = Some 100
   \<and> feePer10k (toFirmRow 10000 firmA) = Some (Finite 100)
   \<and> toFirmRow 0 firmN \<in> set (toFirmRows catalogN 0)
   \<and> fee (toFirmRow 0 firmN) = Some 50
   \<and> feePer10k (toFirmRow 0 firmN) = Some PosInfinity"
proof -
  have n: "toFirmRow 10000 firmN \<in> set (toFirmRows catalogN 10000)"
    and a: "toFirmRow 10000 firmA \<in> set (toFirmRows catalogN 10000)"
    and z: "toFirmRow 0 firmN \<in> set (toFirmRows catalogN 0)"
    by (simp_all add: toFirmRows_def catalogN_def)
  have range: "(10000::real) \<noteq> 0 \<and> (99 = (0::real) \<or> pow2 (- 1022) \<le> \<bar>99 / 10000 :: real\<bar>
      \<and> \<bar>99 / 10000 :: real\<bar> \<le> pow2 1000)"
    by (simp add: pow2_def)
  note at_n = feePer10k_formula [of catalogN 10000, rule_format, OF n fee_rows_N(1)]
  from at_n have value_n:
    "feePer10k (toFirmRow 10000 firmN) = Some (Finite (6966505673588737 / 70368744177664))"
    by (simp add: per10k_99)
  from at_n [THEN conjunct2, THEN conjunct2, rule_format, OF range] value_n
  have near: "\<bar>6966505673588737 / 70368744177664 - 99 / 10000 * 10000\<bar>
       \<le> \<bar>99 / 10000 * 10000 :: real\<bar> * pow2 (- 51)"
    by auto
  from feePer10k_formula [of catalogN 10000, rule_format, OF a fee_rows_ABC(1)]
  have value_a: "feePer10k (toFirmRow 10000 firmA) = Some (Finite 100)"
    by (simp add: per10k_100)
  from feePer10k_formula [of catalogN 0, rule_format, OF z fee_rows_N(2)]
  have value_z: "feePer10k (toFirmRow 0 firmN) = Some PosInfinity"
    by (simp add: per10k_zero_size)
  from range have "(10000::real) \<noteq> 0" "pow2 (- 1022) \<le> \<bar>99 / 10000 :: real\<bar>"
    "\<bar>99 / 10000 :: real\<bar> \<le> pow2 1000" by simp_all
  with n a z value_n near value_a value_z fee_rows_N fee_rows_ABC(1) show ?thesis by blast
qed

end
